theory Spec2Isabelle
  imports Main "HOL-Library.AList" "HOL-Library.Sublist"
begin

section \<open>Python values and the environment of the auditor\<close>

text \<open>
  The auditor is one Python script, \<^verbatim>\<open>main.py\<close>. Its functions are embedded here as
  HOL functions that thread an explicit state. Everything the script obtains from a
  library (the URL join, the HTTP client, the file system, the JSON string encoder) is a
  field of an environment record, so every theorem holds for any behaviour of these.

  Exceptions are values. Only subclasses of \<^verbatim>\<open>Exception\<close> are modelled: these are what
  a library call raises; an asynchronous \<^verbatim>\<open>KeyboardInterrupt\<close> is outside the model.
  \<^verbatim>\<open>requests.exceptions.RequestException\<close> is the class the first inner handler names;
  every other exception is caught by the second handler, \<^verbatim>\<open>except Exception\<close>.

  The handlers format the exception they caught into their log message (\<^verbatim>\<open>{e}\<close> in an
  f-string), which calls \<^verbatim>\<open>str(e)\<close>. For an exception of a built-in class or of the
  \<^verbatim>\<open>requests\<close> library this returns its message; for an arbitrary exception object
  \<^verbatim>\<open>__str__\<close> is code of its class and can raise. \<open>Unprintable b e'\<close> is an exception
  whose \<^verbatim>\<open>__str__\<close> raises \<open>e'\<close>; \<open>b\<close> says whether its class is a subclass of
  \<^verbatim>\<open>RequestException\<close>.
\<close>

datatype exn =
    RequestException string
  | OSError string
  | ValueError string
  | OtherException string
  | Unprintable bool exn

text \<open>\<^verbatim>\<open>str(e)\<close>: the message, or the exception that \<^verbatim>\<open>__str__\<close> raises.\<close>

fun str_exn :: "exn \<Rightarrow> exn + string" where
  "str_exn (RequestException m) = Inr m"
| "str_exn (OSError m) = Inr m"
| "str_exn (ValueError m) = Inr m"
| "str_exn (OtherException m) = Inr m"
| "str_exn (Unprintable b e') = Inl e'"

text \<open>\<^verbatim>\<open>isinstance(e, requests.exceptions.RequestException)\<close>.\<close>

fun is_RequestException :: "exn \<Rightarrow> bool" where
  "is_RequestException (RequestException m) = True"
| "is_RequestException (Unprintable b e') = b"
| "is_RequestException e = False"

record response =
  status_code :: int

text \<open>
  One call \<^verbatim>\<open>requests.request(method, full_url, headers={'User-Agent': user_agent},
  timeout=timeout, verify=not ignore_ssl)\<close>.
\<close>

record request =
  req_method :: string
  req_url :: string
  req_user_agent :: string
  req_timeout :: int
  req_verify :: bool

datatype level = INFO | WARNING | ERROR

text \<open>
  The state: the outside world (network and file system) as an abstract value, the
  requests issued so far, the records logged so far (the root logger is configured at
  level INFO, so \<^verbatim>\<open>logging.debug\<close> emits nothing and is not modelled; the timestamp
  of a record is left out), the lines printed on standard output, and the files written.
\<close>

record 'w state =
  world :: 'w
  sent :: "request list"
  log :: "(level \<times> string) list"
  stdout :: "string list"
  written :: "(string \<times> string) list"

text \<open>
  The library calls. \<open>urljoin\<close> is \<^verbatim>\<open>urllib.parse.urljoin\<close>, which can raise;
  \<open>requests_request\<close> answers one request with a response or an exception and changes
  the world; \<open>open_write\<close> is \<^verbatim>\<open>open(filename, 'w')\<close> followed by the write of the
  text, and returns the message of the \<^verbatim>\<open>IOError\<close> it raised, if any (the
  \<^verbatim>\<open>IOError\<close> of a file operation is a built-in exception, whose message can always
  be formed; file names come from the command line and hold no null character, so
  \<^verbatim>\<open>open\<close> raises nothing else);
  \<open>encode_basestring\<close> is the JSON encoder of one string (quotes and escapes).
\<close>

record 'w env =
  urljoin :: "string \<Rightarrow> string \<Rightarrow> exn + string"
  requests_request :: "request \<Rightarrow> 'w \<Rightarrow> (exn + response) \<times> 'w"
  open_write :: "string \<Rightarrow> string \<Rightarrow> 'w \<Rightarrow> string option \<times> 'w"
  encode_basestring :: "string \<Rightarrow> string"

text \<open>
  A Python \<^verbatim>\<open>dict\<close> keeps its keys in insertion order; \<^verbatim>\<open>d[k] = v\<close> replaces the
  value in place when \<open>k\<close> is present and appends the pair otherwise. This is
  \<^const>\<open>AList.update\<close> on an association list. The values stored by the prober are
  \<^verbatim>\<open>True\<close>, \<^verbatim>\<open>False\<close> and \<^verbatim>\<open>None\<close>: \<open>Some True\<close>, \<open>Some False\<close> and \<open>None\<close>.
\<close>

type_synonym results = "(string \<times> bool option) list"

definition logging_info :: "string \<Rightarrow> 'w state \<Rightarrow> 'w state" where
  "logging_info msg st = st\<lparr>log := log st @ [(INFO, msg)]\<rparr>"

definition logging_warning :: "string \<Rightarrow> 'w state \<Rightarrow> 'w state" where
  "logging_warning msg st = st\<lparr>log := log st @ [(WARNING, msg)]\<rparr>"

definition logging_error :: "string \<Rightarrow> 'w state \<Rightarrow> 'w state" where
  "logging_error msg st = st\<lparr>log := log st @ [(ERROR, msg)]\<rparr>"

definition print :: "string \<Rightarrow> 'w state \<Rightarrow> 'w state" where
  "print text st = st\<lparr>stdout := stdout st @ [text]\<rparr>"

section \<open>The prober: \<^verbatim>\<open>test_http_methods\<close>\<close>

text \<open>
  The inner \<^verbatim>\<open>try\<close> of the loop (lines 56 to 72): one request, then the
  classification of the status code, or one of the two handlers. A handler first
  formats its log message and then stores \<^verbatim>\<open>None\<close>; when the formatting raises,
  the handler is left at once, nothing is logged or stored, and the exception leaves
  the statement (a handler's exception is not caught by the handler next to it). The
  result is \<open>Inl e\<close> when an exception leaves the statement and \<open>Inr\<close> of the
  dictionary otherwise.
\<close>

definition try_method ::
  "'w env \<Rightarrow> string \<Rightarrow> string \<Rightarrow> int \<Rightarrow> bool \<Rightarrow> string \<Rightarrow> results \<Rightarrow> 'w state
    \<Rightarrow> (exn + results) \<times> 'w state" where
  "try_method env full_url user_agent timeout ignore_ssl method results st =
     (let req = \<lparr>req_method = method, req_url = full_url, req_user_agent = user_agent,
                 req_timeout = timeout, req_verify = (\<not> ignore_ssl)\<rparr>;
          answer = requests_request env req (world st);
          st1 = st\<lparr>world := snd answer, sent := sent st @ [req]\<rparr>
      in case fst answer of
           Inr response \<Rightarrow>
             if 400 \<le> status_code response \<and> status_code response < 600
             then (Inr (AList.update method (Some False) results), st1)
             else (Inr (AList.update method (Some True) results), st1)
         | Inl e \<Rightarrow>
             if is_RequestException e
             then (case str_exn e of
                     Inl e' \<Rightarrow> (Inl e', st1)
                   | Inr msg \<Rightarrow>
                       (Inr (AList.update method None results),
                        logging_error (''Error testing '' @ method @ '' on '' @ full_url
                                       @ '': '' @ msg) st1))
             else (case str_exn e of
                     Inl e' \<Rightarrow> (Inl e', st1)
                   | Inr msg \<Rightarrow>
                       (Inr (AList.update method None results),
                        logging_error (''Unexpected error testing '' @ method @ '' on ''
                                       @ full_url @ '': '' @ msg) st1)))"

text \<open>The \<^verbatim>\<open>for method in methods\<close> loop; an exception that leaves the body ends it.\<close>

fun for_methods ::
  "'w env \<Rightarrow> string \<Rightarrow> string \<Rightarrow> int \<Rightarrow> bool \<Rightarrow> string list \<Rightarrow> results \<Rightarrow> 'w state
    \<Rightarrow> (exn + results) \<times> 'w state" where
  "for_methods env full_url user_agent timeout ignore_ssl [] results st = (Inr results, st)"
| "for_methods env full_url user_agent timeout ignore_ssl (method # methods) results st =
     (case try_method env full_url user_agent timeout ignore_ssl method results st of
        (Inl e, st') \<Rightarrow> (Inl e, st')
      | (Inr results', st') \<Rightarrow>
          for_methods env full_url user_agent timeout ignore_ssl methods results' st')"

text \<open>
  The function. The URL join stands ahead of the outer \<^verbatim>\<open>try\<close>, so its exception
  leaves the function (\<open>Inl\<close>). The outer handler catches what leaves the loop, formats
  it into its log message and returns \<^verbatim>\<open>None\<close> (\<open>Inr None\<close>); when this formatting
  raises, that exception leaves the function. Otherwise the dictionary is returned
  (\<open>Inr (Some results)\<close>). The argument \<open>methods\<close> is a list, as the docstring has it
  and as \<^verbatim>\<open>argparse\<close> delivers it.
\<close>

definition test_http_methods ::
  "'w env \<Rightarrow> string \<Rightarrow> string \<Rightarrow> string list \<Rightarrow> string \<Rightarrow> int \<Rightarrow> bool \<Rightarrow> 'w state
    \<Rightarrow> (exn + results option) \<times> 'w state" where
  "test_http_methods env url endpoint methods user_agent timeout ignore_ssl st =
     (case urljoin env url endpoint of
        Inl e \<Rightarrow> (Inl e, st)
      | Inr full_url \<Rightarrow>
          (case for_methods env full_url user_agent timeout ignore_ssl methods [] st of
             (Inl e, st') \<Rightarrow>
               (case str_exn e of
                  Inl e' \<Rightarrow> (Inl e', st')
                | Inr msg \<Rightarrow>
                    (Inr None, logging_error (''An unexpected error occurred: '' @ msg) st'))
           | (Inr results, st') \<Rightarrow> (Inr (Some results), st')))"

section \<open>The platform's URL join\<close>

text \<open>
  \<^verbatim>\<open>urllib.parse.urljoin\<close> is not code of the auditor: the theorems take it from
  the environment. To evaluate the auditor on concrete command lines, this section
  transcribes the join of CPython 3.11.10 (\<^verbatim>\<open>Lib/urllib/parse.py\<close>: \<^verbatim>\<open>urlsplit\<close>,
  \<^verbatim>\<open>urlparse\<close>, \<^verbatim>\<open>urlunsplit\<close>, \<^verbatim>\<open>urlunparse\<close>, \<^verbatim>\<open>urljoin\<close>) for
  \<^verbatim>\<open>str\<close> arguments. Two checks of \<^verbatim>\<open>urlsplit\<close> need tables that are not
  transcribed, and are parameters: \<^verbatim>\<open>_check_bracketed_host\<close> (the address between
  \<^verbatim>\<open>[\<close> and \<^verbatim>\<open>]\<close>) and the NFKC test of \<^verbatim>\<open>_checknetloc\<close> on a host that is not
  ASCII. Neither is reached on a host without brackets made of ASCII characters.

  Releases of the library differ in corners of this code: the list of schemes, a
  further test on where the brackets of a host stand, and the treatment of a path that
  starts with two slashes when the URL is put together again. The concrete runs of
  this theory use a base URL with an ASCII host and an endpoint that is \<^verbatim>\<open>/admin\<close>,
  \<^verbatim>\<open>/x\<close>, \<^verbatim>\<open>//[\<close> or \<^verbatim>\<open>//evil.com/x\<close> (and the base \<^verbatim>\<open>http://[\<close>), on which
  the releases agree.
\<close>

record host_checks =
  check_bracketed_host :: "string \<Rightarrow> exn option"
  checknetloc_nfkc :: "string \<Rightarrow> exn option"

definition uses_relative :: "string list" where
  "uses_relative = ['''', ''ftp'', ''http'', ''gopher'', ''nntp'', ''imap'',
     ''wais'', ''file'', ''https'', ''shttp'', ''mms'',
     ''prospero'', ''rtsp'', ''rtsps'', ''rtspu'', ''sftp'',
     ''svn'', ''svn+ssh'', ''ws'', ''wss'']"

definition uses_netloc :: "string list" where
  "uses_netloc = ['''', ''ftp'', ''http'', ''gopher'', ''nntp'', ''telnet'',
     ''imap'', ''wais'', ''file'', ''mms'', ''https'', ''shttp'',
     ''snews'', ''prospero'', ''rtsp'', ''rtsps'', ''rtspu'', ''rsync'',
     ''svn'', ''svn+ssh'', ''sftp'', ''nfs'', ''git'', ''git+ssh'',
     ''ws'', ''wss'']"

definition uses_params :: "string list" where
  "uses_params = ['''', ''ftp'', ''hdl'', ''prospero'', ''http'', ''imap'',
     ''https'', ''shttp'', ''rtsp'', ''rtsps'', ''rtspu'', ''sip'',
     ''sips'', ''mms'', ''sftp'', ''tel'']"

definition ascii_upper :: string where
  "ascii_upper = ''ABCDEFGHIJKLMNOPQRSTUVWXYZ''"

definition ascii_lower :: string where
  "ascii_lower = ''abcdefghijklmnopqrstuvwxyz''"

definition scheme_chars :: string where
  "scheme_chars = ascii_lower @ ascii_upper @ ''0123456789'' @ ''+-.''"

text \<open>\<^verbatim>\<open>str.lower\<close> on one character, for the ASCII letters a scheme is made of.\<close>

definition lower_char :: "char \<Rightarrow> char" where
  "lower_char c = (case map_of (zip ascii_upper ascii_lower) c of Some l \<Rightarrow> l | None \<Rightarrow> c)"

text \<open>The characters U+0000 to U+0020, stripped from the front of a URL.\<close>

definition c0_control_or_space :: "char \<Rightarrow> bool" where
  "c0_control_or_space c = ((of_char c :: nat) \<le> 32)"

text \<open>Tab, carriage return and line feed, removed wherever they stand.\<close>

definition unsafe_url_byte :: "char \<Rightarrow> bool" where
  "unsafe_url_byte c = ((of_char c :: nat) \<in> {9, 13, 10})"

definition isascii :: "string \<Rightarrow> bool" where
  "isascii s = (\<forall>c \<in> set s. (of_char c :: nat) < 128)"

text \<open>\<^verbatim>\<open>s.split(sep)\<close> and \<^verbatim>\<open>sep.join(parts)\<close>; the separator of a split is one character.\<close>

fun split_on :: "char \<Rightarrow> string \<Rightarrow> string list" where
  "split_on sep [] = [[]]"
| "split_on sep (c # cs) =
     (if c = sep then [] # split_on sep cs
      else (case split_on sep cs of [] \<Rightarrow> [[c]] | s # ss \<Rightarrow> (c # s) # ss))"

fun join_with :: "string \<Rightarrow> string list \<Rightarrow> string" where
  "join_with sep [] = []"
| "join_with sep [s] = s"
| "join_with sep (s # t # ts) = s @ sep @ join_with sep (t # ts)"

text \<open>\<^verbatim>\<open>s.split(sep, 1)\<close> when \<open>sep\<close> occurs in \<open>s\<close>: the text on each side of the first one.\<close>

definition split_first :: "char \<Rightarrow> string \<Rightarrow> string \<times> string" where
  "split_first sep s = (takeWhile (\<lambda>c. c \<noteq> sep) s, drop 1 (dropWhile (\<lambda>c. c \<noteq> sep) s))"

definition splitnetloc :: "string \<Rightarrow> string \<times> string" where
  "splitnetloc rest =
     (takeWhile (\<lambda>c. c \<notin> set ''/?#'') rest, dropWhile (\<lambda>c. c \<notin> set ''/?#'') rest)"

definition checknetloc :: "host_checks \<Rightarrow> string \<Rightarrow> exn option" where
  "checknetloc hc netloc =
     (if netloc = [] \<or> isascii netloc then None else checknetloc_nfkc hc netloc)"

definition urlsplit ::
  "host_checks \<Rightarrow> string \<Rightarrow> string \<Rightarrow> exn + (string \<times> string \<times> string \<times> string \<times> string)" where
  "urlsplit hc url0 scheme0 =
     (let url1 = filter (\<lambda>c. \<not> unsafe_url_byte c) (dropWhile c0_control_or_space url0);
          scheme1 = filter (\<lambda>c. \<not> unsafe_url_byte c)
                      (rev (dropWhile c0_control_or_space
                         (rev (dropWhile c0_control_or_space scheme0))));
          first_part = takeWhile (\<lambda>c. c \<noteq> CHR '':'') url1;
          has_scheme = (CHR '':'' \<in> set url1 \<and> first_part \<noteq> []
                        \<and> hd url1 \<in> set (ascii_lower @ ascii_upper)
                        \<and> (\<forall>c \<in> set first_part. c \<in> set scheme_chars));
          scheme = (if has_scheme then map lower_char first_part else scheme1);
          url2 = (if has_scheme then drop (length first_part + 1) url1 else url1);
          has_netloc = (take 2 url2 = ''//'');
          netloc = (if has_netloc then fst (splitnetloc (drop 2 url2)) else []);
          url3 = (if has_netloc then snd (splitnetloc (drop 2 url2)) else url2);
          url4 = (if CHR ''#'' \<in> set url3 then fst (split_first CHR ''#'' url3) else url3);
          fragment = (if CHR ''#'' \<in> set url3 then snd (split_first CHR ''#'' url3) else []);
          url5 = (if CHR ''?'' \<in> set url4 then fst (split_first CHR ''?'' url4) else url4);
          query = (if CHR ''?'' \<in> set url4 then snd (split_first CHR ''?'' url4) else [])
      in if has_netloc \<and> ((CHR ''['' \<in> set netloc \<and> CHR '']'' \<notin> set netloc)
                          \<or> (CHR '']'' \<in> set netloc \<and> CHR ''['' \<notin> set netloc))
         then Inl (ValueError ''Invalid IPv6 URL'')
         else
           (case (if has_netloc \<and> CHR ''['' \<in> set netloc \<and> CHR '']'' \<in> set netloc
                  then check_bracketed_host hc
                         (takeWhile (\<lambda>c. c \<noteq> CHR '']'')
                            (drop 1 (dropWhile (\<lambda>c. c \<noteq> CHR ''['') netloc)))
                  else None) of
              Some e \<Rightarrow> Inl e
            | None \<Rightarrow>
                (case checknetloc hc netloc of
                   Some e \<Rightarrow> Inl e
                 | None \<Rightarrow> Inr (scheme, netloc, url5, query, fragment))))"

definition splitparams :: "string \<Rightarrow> string \<times> string" where
  "splitparams url =
     (if CHR ''/'' \<in> set url
      then (let tail = rev (takeWhile (\<lambda>c. c \<noteq> CHR ''/'') (rev url))
            in if CHR '';'' \<in> set tail
               then (take (length url - length tail) url @ takeWhile (\<lambda>c. c \<noteq> CHR '';'') tail,
                     drop 1 (dropWhile (\<lambda>c. c \<noteq> CHR '';'') tail))
               else (url, []))
      else split_first CHR '';'' url)"

definition urlparse ::
  "host_checks \<Rightarrow> string \<Rightarrow> string
    \<Rightarrow> exn + (string \<times> string \<times> string \<times> string \<times> string \<times> string)" where
  "urlparse hc url scheme0 =
     (case urlsplit hc url scheme0 of
        Inl e \<Rightarrow> Inl e
      | Inr (scheme, netloc, path, query, fragment) \<Rightarrow>
          if scheme \<in> set uses_params \<and> CHR '';'' \<in> set path
          then Inr (scheme, netloc, fst (splitparams path), snd (splitparams path),
                    query, fragment)
          else Inr (scheme, netloc, path, [], query, fragment))"

definition urlunsplit :: "string \<Rightarrow> string \<Rightarrow> string \<Rightarrow> string \<Rightarrow> string \<Rightarrow> string" where
  "urlunsplit scheme netloc url0 query fragment =
     (let url1 = (if netloc \<noteq> [] \<or> (scheme \<noteq> [] \<and> scheme \<in> set uses_netloc)
                     \<or> take 2 url0 = ''//''
                  then ''//'' @ netloc
                       @ (if url0 \<noteq> [] \<and> take 1 url0 \<noteq> ''/'' then ''/'' @ url0 else url0)
                  else url0);
          url2 = (if scheme \<noteq> [] then scheme @ '':'' @ url1 else url1);
          url3 = (if query \<noteq> [] then url2 @ ''?'' @ query else url2)
      in if fragment \<noteq> [] then url3 @ ''#'' @ fragment else url3)"

definition urlunparse ::
  "string \<Rightarrow> string \<Rightarrow> string \<Rightarrow> string \<Rightarrow> string \<Rightarrow> string \<Rightarrow> string" where
  "urlunparse scheme netloc url params query fragment =
     urlunsplit scheme netloc (if params \<noteq> [] then url @ '';'' @ params else url)
       query fragment"

text \<open>The loop of \<^verbatim>\<open>urljoin\<close> that removes the dot segments.\<close>

fun resolve_segments :: "string list \<Rightarrow> string list \<Rightarrow> string list" where
  "resolve_segments resolved_path [] = resolved_path"
| "resolve_segments resolved_path (seg # segs) =
     (if seg = ''..'' then resolve_segments (butlast resolved_path) segs
      else if seg = ''.'' then resolve_segments resolved_path segs
      else resolve_segments (resolved_path @ [seg]) segs)"

text \<open>\<^verbatim>\<open>segments[1:-1] = filter(None, segments[1:-1])\<close>.\<close>

definition drop_empty_inner :: "string list \<Rightarrow> string list" where
  "drop_empty_inner segments =
     (if length segments < 2 then segments
      else hd segments # filter (\<lambda>s. s \<noteq> []) (butlast (tl segments)) @ [last segments])"

definition py_urljoin :: "host_checks \<Rightarrow> string \<Rightarrow> string \<Rightarrow> exn + string" where
  "py_urljoin hc base url =
     (if base = [] then Inr url
      else if url = [] then Inr base
      else
        (case urlparse hc base [] of
           Inl e \<Rightarrow> Inl e
         | Inr (bscheme, bnetloc, bpath, bparams, bquery, bfragment) \<Rightarrow>
        (case urlparse hc url bscheme of
           Inl e \<Rightarrow> Inl e
         | Inr (scheme, netloc, path, params, query, fragment) \<Rightarrow>
             if scheme \<noteq> bscheme \<or> scheme \<notin> set uses_relative then Inr url
             else if scheme \<in> set uses_netloc \<and> netloc \<noteq> []
             then Inr (urlunparse scheme netloc path params query fragment)
             else
               (let netloc' = (if scheme \<in> set uses_netloc then bnetloc else netloc)
                in if path = [] \<and> params = []
                   then Inr (urlunparse scheme netloc' bpath bparams
                               (if query = [] then bquery else query) fragment)
                   else
                     (let base_parts = (if last (split_on CHR ''/'' bpath) \<noteq> []
                                        then butlast (split_on CHR ''/'' bpath)
                                        else split_on CHR ''/'' bpath);
                          segments = (if take 1 path = ''/'' then split_on CHR ''/'' path
                                      else drop_empty_inner
                                             (base_parts @ split_on CHR ''/'' path));
                          resolved = resolve_segments [] segments;
                          resolved_path = (if last segments \<in> {''.'', ''..''}
                                           then resolved @ [[]] else resolved);
                          joined = join_with ''/'' resolved_path
                      in Inr (urlunparse scheme netloc'
                                (if joined = [] then ''/'' else joined)
                                params query fragment))))))"

section \<open>The JSON encoder\<close>

text \<open>
  \<^verbatim>\<open>json.dumps(obj, indent=4)\<close> and \<^verbatim>\<open>json.dump(obj, f, indent=4)\<close> produce the same
  text; it is transcribed from \<^verbatim>\<open>_iterencode_dict\<close> of CPython's
  \<^verbatim>\<open>Lib/json/encoder.py\<close> for the values the auditor passes: a dictionary with string
  keys whose values are dictionaries with string keys and the values \<^verbatim>\<open>True\<close>,
  \<^verbatim>\<open>False\<close> and \<^verbatim>\<open>None\<close>. With an indent, the item separator is a comma and the
  key separator a colon and a space. The dispatch on the type of a value is the
  argument \<open>encode_value\<close>.
\<close>

definition iterencode_dict ::
  "(string \<Rightarrow> string) \<Rightarrow> nat \<Rightarrow> ('v \<Rightarrow> nat \<Rightarrow> string) \<Rightarrow> (string \<times> 'v) list \<Rightarrow> nat \<Rightarrow> string" where
  "iterencode_dict encoder indent encode_value dct current_indent_level =
     (if dct = [] then ''{}''
      else
        (let level = current_indent_level + 1;
             newline_indent = CHR 0x0A # replicate (indent * level) CHR '' '';
             item_separator = '','' @ newline_indent
         in ''{'' @ newline_indent
            @ join_with item_separator
                (map (\<lambda>(key, v). encoder key @ '': '' @ encode_value v level) dct)
            @ CHR 0x0A # replicate (indent * current_indent_level) CHR '' ''
            @ ''}''))"

fun json_literal :: "bool option \<Rightarrow> string" where
  "json_literal None = ''null''"
| "json_literal (Some True) = ''true''"
| "json_literal (Some False) = ''false''"

type_synonym audit_report = "(string \<times> results) list"

definition json_dumps :: "(string \<Rightarrow> string) \<Rightarrow> nat \<Rightarrow> audit_report \<Rightarrow> string" where
  "json_dumps encoder indent all_results =
     iterencode_dict encoder indent
       (\<lambda>results level. iterencode_dict encoder indent (\<lambda>v level'. json_literal v)
                          results level)
       all_results 0"

section \<open>The output and the orchestrator: \<^verbatim>\<open>save_results_to_file\<close> and \<^verbatim>\<open>main\<close>\<close>

definition save_results_to_file :: "'w env \<Rightarrow> audit_report \<Rightarrow> string \<Rightarrow> 'w state \<Rightarrow> 'w state" where
  "save_results_to_file env results filename st =
     (let text = json_dumps (encode_basestring env) 4 results;
          outcome = open_write env filename text (world st)
      in case fst outcome of
           None \<Rightarrow>
             logging_info (''Results saved to '' @ filename)
               (st\<lparr>world := snd outcome, written := written st @ [(filename, text)]\<rparr>)
         | Some e \<Rightarrow>
             logging_error (''Error saving results to '' @ filename @ '': '' @ e)
               (st\<lparr>world := snd outcome\<rparr>))"

text \<open>
  The namespace \<^verbatim>\<open>setup_argparse\<close> returns. \<^verbatim>\<open>argparse\<close> itself is a library: a run
  starts here from the parsed arguments. An option that was not given is \<open>None\<close>;
  \<open>output_path\<close> is \<^verbatim>\<open>args.output\<close>.
\<close>

record args =
  url :: string
  endpoints :: "string list option"
  methods :: "string list"
  output_path :: "string option"
  discover :: bool
  user_agent :: string
  timeout :: int
  ignore_ssl :: bool

text \<open>The truth value of \<^verbatim>\<open>results\<close> in \<^verbatim>\<open>if results:\<close> and of \<^verbatim>\<open>args.output\<close>.\<close>

fun truthy :: "'a list option \<Rightarrow> bool" where
  "truthy None = False"
| "truthy (Some xs) = (xs \<noteq> [])"

text \<open>The loop over \<^verbatim>\<open>args.endpoints\<close> (lines 113 to 119).\<close>

fun for_endpoints ::
  "'w env \<Rightarrow> args \<Rightarrow> string list \<Rightarrow> audit_report \<Rightarrow> 'w state \<Rightarrow> (exn + audit_report) \<times> 'w state" where
  "for_endpoints env args [] all_results st = (Inr all_results, st)"
| "for_endpoints env args (endpoint # rest) all_results st =
     (case test_http_methods env (url args) endpoint (methods args) (user_agent args)
             (timeout args) (ignore_ssl args)
             (logging_info (''Auditing endpoint: '' @ endpoint) st) of
        (Inl e, st') \<Rightarrow> (Inl e, st')
      | (Inr results, st') \<Rightarrow>
          if truthy results
          then for_endpoints env args rest (AList.update endpoint (the results) all_results) st'
          else for_endpoints env args rest all_results
                 (logging_error (''Failed to test HTTP methods for endpoint: '' @ endpoint) st'))"

text \<open>
  \<^verbatim>\<open>main\<close>: \<open>Inr n\<close> is the status of \<^verbatim>\<open>sys.exit(n)\<close>, or 0 when the function returns;
  \<open>Inl e\<close> is an exception nothing caught, which ends the interpreter with a traceback
  and the exit status 1.
\<close>

definition main :: "'w env \<Rightarrow> args \<Rightarrow> 'w state \<Rightarrow> (exn + int) \<times> 'w state" where
  "main env args st =
     (if \<not> prefix ''http://'' (url args) \<and> \<not> prefix ''https://'' (url args)
      then (Inr 1, print ''Error: URL must start with http:// or https://'' st)
      else
        (case endpoints args of
           None \<Rightarrow>
             (Inr 1,
              print (''Error: No endpoints specified, this tool requires you to explicitly ''
                     @ ''list the endpoints. Example: -e /admin /api/v1'')
                (logging_warning
                   (''No endpoints specified.  Consider using --discover (not implemented) ''
                    @ ''or providing specific endpoints with -e.'') st))
         | Some endpoint_list \<Rightarrow>
             (case for_endpoints env args endpoint_list [] st of
                (Inl e, st') \<Rightarrow> (Inl e, st')
              | (Inr all_results, st') \<Rightarrow>
                  (Inr 0,
                   logging_info ''Audit completed.''
                     (if truthy (output_path args)
                      then save_results_to_file env all_results (the (output_path args)) st'
                      else print (json_dumps (encode_basestring env) 4 all_results) st')))))"

fun exit_status :: "exn + int \<Rightarrow> int" where
  "exit_status (Inl e) = 1"
| "exit_status (Inr n) = n"

section \<open>Specification-level notions and test doubles\<close>

text \<open>
  The three results as the specification words them: a status code in the half-open
  range from 400 to 600 is Denied (\<^verbatim>\<open>False\<close>), any other status code is Allowed
  (\<^verbatim>\<open>True\<close>), no response is Error (\<^verbatim>\<open>None\<close>).
\<close>

definition method_result :: "exn + response \<Rightarrow> bool option" where
  "method_result answer =
     (case answer of
        Inl e \<Rightarrow> None
      | Inr response \<Rightarrow> Some (\<not> (400 \<le> status_code response \<and> status_code response < 600)))"

text \<open>
  An exception whose message can be formed, and a transport all of whose exceptions
  are such: this is the case of every exception of the \<^verbatim>\<open>requests\<close> library and of
  the built-in classes.
\<close>

definition printable :: "exn \<Rightarrow> bool" where
  "printable e \<longleftrightarrow> \<not> isl (str_exn e)"

definition printable_faults :: "'w env \<Rightarrow> bool" where
  "printable_faults env \<longleftrightarrow>
     (\<forall>req w e. fst (requests_request env req w) = Inl e \<longrightarrow> printable e)"

text \<open>The request the prober issues for one method.\<close>

definition the_request :: "string \<Rightarrow> string \<Rightarrow> int \<Rightarrow> bool \<Rightarrow> string \<Rightarrow> request" where
  "the_request full_url ua tmo ig method =
     \<lparr>req_method = method, req_url = full_url, req_user_agent = ua,
      req_timeout = tmo, req_verify = (\<not> ig)\<rparr>"

text \<open>
  The two usage errors of the specification: a URL that starts with neither
  \<^verbatim>\<open>http://\<close> nor \<^verbatim>\<open>https://\<close>, and no endpoints.
\<close>

definition usage_error :: "args \<Rightarrow> bool" where
  "usage_error args \<longleftrightarrow>
     (\<not> prefix ''http://'' (url args) \<and> \<not> prefix ''https://'' (url args))
     \<or> endpoints args = None"

text \<open>
  The layout of the output as the specification words it: an object keyed by endpoint,
  each value an object keyed by method, each value \<^verbatim>\<open>true\<close>, \<^verbatim>\<open>false\<close> or
  \<^verbatim>\<open>null\<close>, one member per line, four spaces per level.
\<close>

definition method_line :: "(string \<Rightarrow> string) \<Rightarrow> string \<times> bool option \<Rightarrow> string" where
  "method_line encoder member =
     replicate 8 CHR '' '' @ encoder (fst member) @ '': ''
     @ (case snd member of None \<Rightarrow> ''null'' | Some True \<Rightarrow> ''true'' | Some False \<Rightarrow> ''false'')"

definition endpoint_block :: "(string \<Rightarrow> string) \<Rightarrow> string \<times> results \<Rightarrow> string" where
  "endpoint_block encoder entry =
     replicate 4 CHR '' '' @ encoder (fst entry) @ '': ''
     @ (if snd entry = [] then ''{}''
        else ''{'' @ [CHR 0x0A]
             @ join_with ('','' @ [CHR 0x0A]) (map (method_line encoder) (snd entry))
             @ [CHR 0x0A] @ replicate 4 CHR '' '' @ ''}'')"

definition report_text :: "(string \<Rightarrow> string) \<Rightarrow> audit_report \<Rightarrow> string" where
  "report_text encoder report =
     (if report = [] then ''{}''
      else ''{'' @ [CHR 0x0A]
           @ join_with ('','' @ [CHR 0x0A]) (map (endpoint_block encoder) report)
           @ [CHR 0x0A] @ ''}'')"

text \<open>
  Test doubles, for evaluating the auditor on concrete runs. The world is the number of
  requests answered so far; the scripted transport answers the \<open>n\<close>-th request with the
  \<open>n\<close>-th entry of its script and refuses the connection once the script is used up.
  The URL join is the transcription of the platform's. The string encoder of the
  double only adds the quotes, which is what the JSON encoder does on a string
  of printable ASCII characters without a quote or a backslash.
\<close>

definition initial_state :: "'w \<Rightarrow> 'w state" where
  "initial_state w = \<lparr>world = w, sent = [], log = [], stdout = [], written = []\<rparr>"

definition no_host_checks :: host_checks where
  "no_host_checks =
     \<lparr>check_bracketed_host = (\<lambda>host. None), checknetloc_nfkc = (\<lambda>netloc. None)\<rparr>"

definition scripted :: "(exn + response) list \<Rightarrow> request \<Rightarrow> nat \<Rightarrow> (exn + response) \<times> nat" where
  "scripted script req n =
     (if n < length script then (script ! n, Suc n)
      else (Inl (RequestException ''Connection refused''), Suc n))"

definition scripted_env :: "(exn + response) list \<Rightarrow> string option \<Rightarrow> nat env" where
  "scripted_env script write_error =
     \<lparr>urljoin = py_urljoin no_host_checks,
      requests_request = scripted script,
      open_write = (\<lambda>filename text w. (write_error, w)),
      encode_basestring = (\<lambda>s. [CHR 0x22] @ s @ [CHR 0x22])\<rparr>"

definition cli_args :: "string \<Rightarrow> string list option \<Rightarrow> string list \<Rightarrow> string option \<Rightarrow> args" where
  "cli_args u es ms out =
     \<lparr>url = u, endpoints = es, methods = ms, output_path = out, discover = False,
      user_agent = ''VulnHTTPMethodAuditor/1.0'', timeout = 10, ignore_ssl = False\<rparr>"

section \<open>One probe\<close>

lemma try_method_eq:
  "try_method env full_url ua tmo ig method results st =
     (let req = the_request full_url ua tmo ig method;
          answer = requests_request env req (world st);
          st1 = st\<lparr>world := snd answer, sent := sent st @ [req]\<rparr>
      in case fst answer of
           Inr response \<Rightarrow>
             (Inr (AList.update method (method_result (fst answer)) results), st1)
         | Inl e \<Rightarrow>
             (case str_exn e of
                Inl e' \<Rightarrow> (Inl e', st1)
              | Inr msg \<Rightarrow>
                  (Inr (AList.update method (method_result (fst answer)) results),
                   logging_error ((if is_RequestException e then ''Error testing ''
                                   else ''Unexpected error testing '')
                                  @ method @ '' on '' @ full_url @ '': '' @ msg) st1)))"
  by (simp add: try_method_def the_request_def method_result_def Let_def
           split: sum.split)

text \<open>
  C1. Whenever the transport answers a probe with a response, the value recorded for
  the method depends on the status code alone: \<^verbatim>\<open>False\<close> (Denied) for a code in the
  half-open range from 400 to 600, \<^verbatim>\<open>True\<close> (Allowed) for every other code.
\<close>

theorem C1_status_code_decides:
  assumes "fst (requests_request env (the_request full_url ua tmo ig method) (world st))
           = Inr response"
  shows "\<exists>results' st'.
           try_method env full_url ua tmo ig method results st = (Inr results', st')
         \<and> map_of results' method
             = Some (if 400 \<le> status_code response \<and> status_code response < 600
                     then Some False else Some True)
         \<and> log st' = log st"
  using assms by (simp add: try_method_eq method_result_def Let_def update_conv')

theorem C1_status_code_decides_witness:
  "\<exists>results' st'.
     try_method (scripted_env [Inr \<lparr>status_code = 404\<rparr>] None) ''https://example.com/admin''
       ''VulnHTTPMethodAuditor/1.0'' 10 False ''PUT'' [(''GET'', Some True)] (initial_state 0)
       = (Inr results', st')
     \<and> map_of results' ''PUT'' = Some (Some False) \<and> log st' = []"
  using C1_status_code_decides
    [of "scripted_env [Inr \<lparr>status_code = 404\<rparr>] None" "''https://example.com/admin''"
        "''VulnHTTPMethodAuditor/1.0''" 10 False "''PUT''" "initial_state 0"
        "\<lparr>status_code = 404\<rparr>" "[(''GET'', Some True)]"]
  by (simp add: scripted_env_def scripted_def initial_state_def)

section \<open>The loop over the methods\<close>

lemma printable_iff: "printable e \<longleftrightarrow> (\<exists>msg. str_exn e = Inr msg)"
  by (cases "str_exn e") (simp_all add: printable_def)

text \<open>
  A request that raises an exception with a message stores \<^verbatim>\<open>None\<close> and logs; a
  request that raises an exception without one makes the handler raise.
\<close>

lemma try_method_fault:
  assumes "fst (requests_request env (the_request full_url ua tmo ig method) (world st)) = Inl e"
    and "printable e"
  shows "\<exists>st'. try_method env full_url ua tmo ig method results st
                 = (Inr (AList.update method None results), st')
             \<and> sent st' = sent st @ [the_request full_url ua tmo ig method]"
proof -
  from assms(2) obtain msg where "str_exn e = Inr msg"
    by (auto simp: printable_iff)
  with assms(1) show ?thesis
    by (simp add: try_method_eq Let_def method_result_def logging_error_def)
qed

lemma try_method_Inr:
  assumes "printable_faults env"
  shows "\<exists>results' st'. try_method env full_url ua tmo ig method results st = (Inr results', st')"
proof (cases "fst (requests_request env (the_request full_url ua tmo ig method) (world st))")
  case (Inl e)
  with assms have "printable e"
    by (auto simp: printable_faults_def)
  from try_method_fault [OF Inl this] show ?thesis by blast
next
  case (Inr response)
  then show ?thesis by (simp add: try_method_eq Let_def)
qed

lemma try_method_results:
  "try_method env full_url ua tmo ig method results st = (Inr results', st')
   \<Longrightarrow> results' = AList.update method
         (method_result (fst (requests_request env
            (the_request full_url ua tmo ig method) (world st)))) results"
  by (auto simp: try_method_eq Let_def split: sum.splits)

lemma try_method_sent:
  "try_method env full_url ua tmo ig method results st = (x, st')
   \<Longrightarrow> sent st' = sent st @ [the_request full_url ua tmo ig method]"
  by (auto simp: try_method_eq Let_def logging_error_def split: sum.splits)

lemma for_methods_snoc:
  "for_methods env full_url ua tmo ig (ms @ [method]) results st =
     (case for_methods env full_url ua tmo ig ms results st of
        (Inl e, st') \<Rightarrow> (Inl e, st')
      | (Inr results', st') \<Rightarrow> try_method env full_url ua tmo ig method results' st')"
proof (induction ms arbitrary: results st)
  case Nil
  show ?case by (auto split: prod.split sum.split)
next
  case (Cons m ms)
  show ?case by (auto simp: Cons.IH split: prod.split sum.split)
qed

lemma for_methods_append:
  "for_methods env full_url ua tmo ig (pre @ post) results st =
     (case for_methods env full_url ua tmo ig pre results st of
        (Inl e, st') \<Rightarrow> (Inl e, st')
      | (Inr results', st') \<Rightarrow> for_methods env full_url ua tmo ig post results' st')"
proof (induction pre arbitrary: results st)
  case Nil
  show ?case by simp
next
  case (Cons m ms)
  show ?case by (auto simp: Cons.IH split: prod.split sum.split)
qed

text \<open>A loop that has completed has completed each of its steps.\<close>

lemma for_methods_Cons_Inr:
  "for_methods env full_url ua tmo ig (m # ms) results st = (Inr r, st')
   \<Longrightarrow> \<exists>r1 st1. try_method env full_url ua tmo ig m results st = (Inr r1, st1)
             \<and> for_methods env full_url ua tmo ig ms r1 st1 = (Inr r, st')"
  by (auto split: prod.splits sum.splits)

lemma for_methods_append_Inr:
  "for_methods env full_url ua tmo ig (pre @ post) results st = (Inr r, st')
   \<Longrightarrow> \<exists>r1 st1. for_methods env full_url ua tmo ig pre results st = (Inr r1, st1)
             \<and> for_methods env full_url ua tmo ig post r1 st1 = (Inr r, st')"
  by (auto simp: for_methods_append split: prod.splits sum.splits)

text \<open>
  When every exception of the transport has a message, no exception leaves the loop:
  both handlers of the inner \<^verbatim>\<open>try\<close> return.
\<close>

lemma for_methods_Inr:
  assumes "printable_faults env"
  shows "\<exists>results' st'. for_methods env full_url ua tmo ig ms results st = (Inr results', st')"
proof (induction ms arbitrary: results st)
  case Nil
  show ?case by simp
next
  case (Cons m ms)
  obtain r1 st1 where "try_method env full_url ua tmo ig m results st = (Inr r1, st1)"
    using try_method_Inr [OF assms] by blast
  then show ?case using Cons.IH [of r1 st1] by simp
qed

text \<open>
  A loop that completes has issued one request per element of the method list, in the
  order of the list; a loop that an exception ends has issued them for a prefix of it.
\<close>

lemma for_methods_sent:
  "for_methods env full_url ua tmo ig ms results st = (Inr r, st')
   \<Longrightarrow> sent st' = sent st @ map (the_request full_url ua tmo ig) ms"
proof (induction ms arbitrary: results st)
  case Nil
  then show ?case by simp
next
  case (Cons m ms)
  from for_methods_Cons_Inr [OF Cons.prems] obtain r1 st1 where
    1: "try_method env full_url ua tmo ig m results st = (Inr r1, st1)"
    and 2: "for_methods env full_url ua tmo ig ms r1 st1 = (Inr r, st')"
    by blast
  from Cons.IH [OF 2] try_method_sent [OF 1] show ?case by simp
qed



text \<open>
  The keys of the dictionary are the methods in the order of their first occurrence:
  \<open>remdups\<close> keeps the last occurrence of each element, so it is applied to the
  reversed list.
\<close>

lemma for_methods_keys:
  "for_methods env full_url ua tmo ig ms [] st = (Inr results', st')
   \<Longrightarrow> map fst results' = rev (remdups (rev ms))"
proof (induction ms arbitrary: results' st' rule: rev_induct)
  case Nil
  then show ?case by simp
next
  case (snoc m ms)
  from for_methods_append_Inr [OF snoc.prems] obtain r1 st1 where
    1: "for_methods env full_url ua tmo ig ms [] st = (Inr r1, st1)"
    and "for_methods env full_url ua tmo ig [m] r1 st1 = (Inr results', st')"
    by blast
  then have 2: "try_method env full_url ua tmo ig m r1 st1 = (Inr results', st')"
    by (auto split: prod.splits sum.splits)
  have keys: "map fst r1 = rev (remdups (rev ms))" using snoc.IH [OF 1] .
  then have "set (map fst r1) = set ms" by simp
  with try_method_results [OF 2] keys show ?case
    by (simp add: update_keys del: set_map)
qed


section \<open>The prober as a whole\<close>

lemma test_http_methods_joined:
  "urljoin env u endpoint = Inr full_url \<Longrightarrow>
   test_http_methods env u endpoint ms ua tmo ig st =
     (case for_methods env full_url ua tmo ig ms [] st of
        (Inl e, st') \<Rightarrow>
          (case str_exn e of
             Inl e' \<Rightarrow> (Inl e', st')
           | Inr msg \<Rightarrow>
               (Inr None, logging_error (''An unexpected error occurred: '' @ msg) st'))
      | (Inr results, st') \<Rightarrow> (Inr (Some results), st'))"
  by (simp add: test_http_methods_def)

text \<open>The four ways in which the prober ends.\<close>

lemma test_http_methods_cases:
  "(\<exists>e. urljoin env u endpoint = Inl e
        \<and> test_http_methods env u endpoint ms ua tmo ig st = (Inl e, st))
   \<or> (\<exists>full_url results st'. urljoin env u endpoint = Inr full_url
        \<and> for_methods env full_url ua tmo ig ms [] st = (Inr results, st')
        \<and> test_http_methods env u endpoint ms ua tmo ig st = (Inr (Some results), st'))
   \<or> (\<exists>full_url e st1 msg. urljoin env u endpoint = Inr full_url
        \<and> for_methods env full_url ua tmo ig ms [] st = (Inl e, st1)
        \<and> str_exn e = Inr msg
        \<and> test_http_methods env u endpoint ms ua tmo ig st
            = (Inr None, logging_error (''An unexpected error occurred: '' @ msg) st1))
   \<or> (\<exists>full_url e st1 e'. urljoin env u endpoint = Inr full_url
        \<and> for_methods env full_url ua tmo ig ms [] st = (Inl e, st1)
        \<and> str_exn e = Inl e'
        \<and> test_http_methods env u endpoint ms ua tmo ig st = (Inl e', st1))"
proof (cases "urljoin env u endpoint")
  case (Inl e)
  then show ?thesis by (simp add: test_http_methods_def)
next
  case join: (Inr full_url)
  obtain x st1 where run: "for_methods env full_url ua tmo ig ms [] st = (x, st1)"
    by (cases "for_methods env full_url ua tmo ig ms [] st")
  show ?thesis
  proof (cases x)
    case (Inr results)
    with run have "test_http_methods env u endpoint ms ua tmo ig st = (Inr (Some results), st1)"
      by (simp add: test_http_methods_joined [OF join])
    with join run Inr show ?thesis by blast
  next
    case raised: (Inl e)
    show ?thesis
    proof (cases "str_exn e")
      case (Inl e')
      with run raised have "test_http_methods env u endpoint ms ua tmo ig st = (Inl e', st1)"
        by (simp add: test_http_methods_joined [OF join])
      with join run raised Inl show ?thesis by blast
    next
      case (Inr msg)
      with run raised have "test_http_methods env u endpoint ms ua tmo ig st
          = (Inr None, logging_error (''An unexpected error occurred: '' @ msg) st1)"
        by (simp add: test_http_methods_joined [OF join])
      with join run raised Inr show ?thesis by blast
    qed
  qed
qed

lemma test_http_methods_Some:
  assumes "urljoin env u endpoint = Inr full_url"
    and "test_http_methods env u endpoint ms ua tmo ig st = (Inr (Some results), st')"
  shows "for_methods env full_url ua tmo ig ms [] st = (Inr results, st')"
  using assms(2) unfolding test_http_methods_joined [OF assms(1)]
  by (auto split: prod.splits sum.splits)

lemma test_http_methods_returns:
  assumes "urljoin env u endpoint = Inr full_url" and "printable_faults env"
  shows "\<exists>results st'.
           test_http_methods env u endpoint ms ua tmo ig st = (Inr (Some results), st')
         \<and> for_methods env full_url ua tmo ig ms [] st = (Inr results, st')"
proof -
  obtain r st' where "for_methods env full_url ua tmo ig ms [] st = (Inr r, st')"
    using for_methods_Inr [OF assms(2)] by blast
  then show ?thesis by (simp add: test_http_methods_joined [OF assms(1)])
qed



section \<open>Facts about the test doubles\<close>

text \<open>The transcribed join on the inputs of the concrete runs below.\<close>

lemma py_join_admin:
  "py_urljoin no_host_checks ''https://example.com'' ''/admin''
     = Inr ''https://example.com/admin''"
  by code_simp

lemma py_join_bracket:
  "py_urljoin no_host_checks ''http://['' ''/x'' = Inl (ValueError ''Invalid IPv6 URL'')"
  by code_simp

lemma py_join_bracket_endpoint:
  "py_urljoin no_host_checks ''http://example.com'' ''//[''
     = Inl (ValueError ''Invalid IPv6 URL'')"
  by code_simp


lemma urljoin_scripted_env [simp]:
  "urljoin (scripted_env script write_error) = py_urljoin no_host_checks"
  by (simp add: scripted_env_def)

lemma requests_scripted_env [simp]:
  "requests_request (scripted_env script write_error) = scripted script"
  by (simp add: scripted_env_def)

lemma join_example:
  "urljoin (scripted_env script write_error) ''https://example.com'' ''/admin''
     = Inr ''https://example.com/admin''"
  by (simp add: py_join_admin)

text \<open>A script whose exceptions all have a message makes a transport of that kind.\<close>

lemma printable_scripted:
  assumes "\<forall>answer \<in> set script. \<forall>e. answer = Inl e \<longrightarrow> printable e"
  shows "printable_faults (scripted_env script write_error)"
  unfolding printable_faults_def
proof (intro allI impI)
  fix req w e
  assume a: "fst (requests_request (scripted_env script write_error) req w) = Inl e"
  show "printable e"
  proof (cases "w < length script")
    case True
    with a have "script ! w = Inl e" by (simp add: scripted_def)
    with True assms show ?thesis by (metis nth_mem)
  next
    case False
    with a show ?thesis by (auto simp: scripted_def printable_def)
  qed
qed

section \<open>Failures of single requests\<close>






section \<open>The outer handler\<close>

text \<open>
  C8 (as amended). When every exception the transport raises has a message, the outer
  handler is never taken: the prober does not return \<^verbatim>\<open>None\<close>, because both handlers
  of the inner \<^verbatim>\<open>try\<close> return; and on every such input on which the URL join succeeds
  it returns a report, whatever the requests do.
\<close>

theorem C8_outer_handler_unreachable:
  assumes "printable_faults env"
  shows "fst (test_http_methods env u endpoint ms ua tmo ig st) \<noteq> Inr None
         \<and> (\<forall>full_url. urljoin env u endpoint = Inr full_url \<longrightarrow>
              (\<exists>results st'. test_http_methods env u endpoint ms ua tmo ig st
                                = (Inr (Some results), st')))"
proof (cases "urljoin env u endpoint")
  case (Inl e)
  then show ?thesis by (simp add: test_http_methods_def)
next
  case (Inr full_url)
  from test_http_methods_returns [OF this assms] obtain results st' where
    "test_http_methods env u endpoint ms ua tmo ig st = (Inr (Some results), st')"
    by blast
  with Inr show ?thesis by simp
qed

theorem C8_outer_handler_unreachable_witness:
  "fst (test_http_methods (scripted_env [Inl (RequestException ''timed out'')] None)
          ''https://example.com'' ''/admin'' [''GET'', ''PUT'']
          ''VulnHTTPMethodAuditor/1.0'' 10 False (initial_state 0)) \<noteq> Inr None
   \<and> (\<exists>results st'.
         test_http_methods (scripted_env [Inl (RequestException ''timed out'')] None)
           ''https://example.com'' ''/admin'' [''GET'', ''PUT'']
           ''VulnHTTPMethodAuditor/1.0'' 10 False (initial_state 0)
         = (Inr (Some results), st'))"
proof -
  have all: "printable_faults (scripted_env [Inl (RequestException ''timed out'')] None)"
    by (rule printable_scripted) (auto simp: printable_def)
  from C8_outer_handler_unreachable
          [OF all, of "''https://example.com''" "''/admin''" "[''GET'', ''PUT'']"
              "''VulnHTTPMethodAuditor/1.0''" 10 False "initial_state 0"]
        join_example [of "[Inl (RequestException ''timed out'')]" None]
  show ?thesis by simp
qed

text \<open>
  The claim as stated fails when the one request raises an exception of the class
  \<^verbatim>\<open>RequestException\<close> whose \<^verbatim>\<open>__str__\<close> raises: the exception belongs to that one
  method's attempt and is caught inside the loop, but the handler raises while it
  formats its log message, and the prober takes the outer handler and returns
  \<^verbatim>\<open>None\<close>.
\<close>

theorem C8_counterexample:
  "test_http_methods
     (scripted_env [Inl (Unprintable True (ValueError ''no text''))] None)
     ''https://example.com'' ''/admin'' [''GET''] ''VulnHTTPMethodAuditor/1.0'' 10 False
     (initial_state 0)
   = (Inr None,
      (initial_state 0)
        \<lparr>world := Suc 0,
          sent := [the_request ''https://example.com/admin'' ''VulnHTTPMethodAuditor/1.0''
                     10 False ''GET''],
          log := [(ERROR, ''An unexpected error occurred: no text'')]\<rparr>)"
  by (simp add: test_http_methods_def py_join_admin try_method_def Let_def scripted_def
        initial_state_def logging_error_def the_request_def)

section \<open>The URL of the requests\<close>





section \<open>The loop over the endpoints\<close>

lemma update_entry:
  "entry \<in> set (AList.update k v al) \<Longrightarrow> entry = (k, v) \<or> entry \<in> set al"
  by (induction al) (auto split: if_splits)

text \<open>Every entry of the audit report is a report some probe returned.\<close>

lemma for_endpoints_entries:
  "for_endpoints env args es all_results st = (Inr report, st')
   \<Longrightarrow> \<forall>entry \<in> set all_results. map fst (snd entry) = rev (remdups (rev (methods args)))
   \<Longrightarrow> \<forall>entry \<in> set report. map fst (snd entry) = rev (remdups (rev (methods args)))"
proof (induction es arbitrary: all_results st)
  case Nil
  then show ?case by simp
next
  case (Cons endpoint rest)
  let ?st0 = "logging_info (''Auditing endpoint: '' @ endpoint) st"
  from test_http_methods_cases
         [of env "url args" endpoint "methods args" "user_agent args" "timeout args"
             "ignore_ssl args" ?st0]
  show ?case
  proof (elim disjE exE conjE)
    fix e
    assume "test_http_methods env (url args) endpoint (methods args) (user_agent args)
              (timeout args) (ignore_ssl args) ?st0 = (Inl e, ?st0)"
    with Cons.prems(1) show ?thesis by simp
  next
    fix full_url results st1
    assume f: "for_methods env full_url (user_agent args) (timeout args) (ignore_ssl args)
              (methods args) [] ?st0 = (Inr results, st1)"
      and t: "test_http_methods env (url args) endpoint (methods args) (user_agent args)
              (timeout args) (ignore_ssl args) ?st0 = (Inr (Some results), st1)"
    have keys: "map fst results = rev (remdups (rev (methods args)))"
      using for_methods_keys [OF f] .
    show ?thesis
    proof (cases "results = []")
      case True
      with t Cons.prems(1) have
        "for_endpoints env args rest all_results
           (logging_error (''Failed to test HTTP methods for endpoint: '' @ endpoint) st1)
         = (Inr report, st')"
        by simp
      from Cons.IH [OF this Cons.prems(2)] show ?thesis .
    next
      case False
      with t Cons.prems(1) have
        "for_endpoints env args rest (AList.update endpoint results all_results) st1
         = (Inr report, st')"
        by simp
      moreover have "\<forall>entry \<in> set (AList.update endpoint results all_results).
                       map fst (snd entry) = rev (remdups (rev (methods args)))"
        using Cons.prems(2) keys by (auto dest: update_entry)
      ultimately show ?thesis by (rule Cons.IH)
    qed
  next
    fix full_url e st1 msg
    assume "test_http_methods env (url args) endpoint (methods args) (user_agent args)
              (timeout args) (ignore_ssl args) ?st0
            = (Inr None, logging_error (''An unexpected error occurred: '' @ msg) st1)"
    with Cons.prems(1) have
      "for_endpoints env args rest all_results
         (logging_error (''Failed to test HTTP methods for endpoint: '' @ endpoint)
            (logging_error (''An unexpected error occurred: '' @ msg) st1))
       = (Inr report, st')"
      by simp
    from Cons.IH [OF this Cons.prems(2)] show ?thesis .
  next
    fix full_url e st1 e'
    assume "test_http_methods env (url args) endpoint (methods args) (user_agent args)
              (timeout args) (ignore_ssl args) ?st0 = (Inl e', st1)"
    with Cons.prems(1) show ?thesis by simp
  qed
qed

text \<open>
  C3. In every run, each endpoint of the final audit report carries a report whose keys
  are exactly the configured methods, each once, in the order in which the method list
  first names them; with a method list without repetition this is the method list
  itself. Every key maps to one of the three results (\<open>bool option\<close> has no other
  value). This holds for every method list, lists with repeated names included.
\<close>

theorem C3_report_keys:
  assumes "for_endpoints env args es [] st = (Inr report, st')"
    and "(endpoint, results) \<in> set report"
  shows "map fst results = rev (remdups (rev (methods args)))
         \<and> distinct (map fst results)
         \<and> set (map fst results) = set (methods args)
         \<and> (distinct (methods args) \<longrightarrow> map fst results = methods args)
         \<and> (\<forall>method \<in> set (methods args).
               map_of results method \<in> {Some (Some True), Some (Some False), Some None})"
proof -
  have "\<forall>entry \<in> set report. map fst (snd entry) = rev (remdups (rev (methods args)))"
    using for_endpoints_entries [OF assms(1)] by simp
  with assms(2) have keys: "map fst results = rev (remdups (rev (methods args)))"
    by force
  have d: "distinct (map fst results)" and s: "set (map fst results) = set (methods args)"
    unfolding keys by simp_all
  have "\<forall>method \<in> set (methods args).
          map_of results method \<in> {Some (Some True), Some (Some False), Some None}"
  proof
    fix m
    assume "m \<in> set (methods args)"
    with s have "m \<in> fst ` set results" by simp
    then obtain v where "map_of results m = Some v"
      by (metis domD dom_map_of_conv_image_fst)
    then show "map_of results m \<in> {Some (Some True), Some (Some False), Some None}"
      by (cases v) auto
  qed
  moreover have "distinct (methods args) \<longrightarrow> map fst results = methods args"
    using keys by (simp add: distinct_remdups_id rev_swap)
  ultimately show ?thesis using keys d s by simp
qed

text \<open>
  Two runs on the endpoint \<^verbatim>\<open>/admin\<close>: the methods GET, PUT, GET answered 200, 403
  and 500, and the methods GET, PUT answered 200 and 403.
\<close>

lemma run_repeated:
  "fst (for_endpoints
          (scripted_env [Inr \<lparr>status_code = 200\<rparr>, Inr \<lparr>status_code = 403\<rparr>,
                         Inr \<lparr>status_code = 500\<rparr>] None)
          (cli_args ''https://example.com'' (Some [''/admin'']) [''GET'', ''PUT'', ''GET''] None)
          [''/admin''] [] (initial_state 0))
     = Inr [(''/admin'', [(''GET'', Some False), (''PUT'', Some False)])]"
  by (simp add: cli_args_def test_http_methods_def py_join_admin try_method_def Let_def
        scripted_def initial_state_def logging_info_def logging_error_def)

lemma run_example:
  "fst (for_endpoints
          (scripted_env [Inr \<lparr>status_code = 200\<rparr>, Inr \<lparr>status_code = 403\<rparr>] None)
          (cli_args ''https://example.com'' (Some [''/admin'']) [''GET'', ''PUT''] None)
          [''/admin''] [] (initial_state 0))
     = Inr [(''/admin'', [(''GET'', Some True), (''PUT'', Some False)])]"
  by (simp add: cli_args_def test_http_methods_def py_join_admin try_method_def Let_def
        scripted_def initial_state_def logging_info_def logging_error_def)

theorem C3_report_keys_witness:
  "map fst [(''GET'', Some False), (''PUT'', Some False :: bool option)]
     = rev (remdups (rev [''GET'', ''PUT'', ''GET'']))
   \<and> map fst [(''GET'', Some True), (''PUT'', Some False)] = [''GET'', ''PUT'']"
proof (rule conjI)
  let ?env = "scripted_env [Inr \<lparr>status_code = 200\<rparr>, Inr \<lparr>status_code = 403\<rparr>,
                            Inr \<lparr>status_code = 500\<rparr>] None"
  let ?args = "cli_args ''https://example.com'' (Some [''/admin''])
                 [''GET'', ''PUT'', ''GET''] None"
  have run: "for_endpoints ?env ?args [''/admin''] [] (initial_state 0)
          = (Inr [(''/admin'', [(''GET'', Some False), (''PUT'', Some False)])],
             snd (for_endpoints ?env ?args [''/admin''] [] (initial_state 0)))"
    using run_repeated by (rule_tac prod_eqI) simp_all
  have entry: "(''/admin'', [(''GET'', Some False), (''PUT'', Some False)])
                 \<in> set [(''/admin'', [(''GET'', Some False), (''PUT'', Some False)])]"
    by simp
  show "map fst [(''GET'', Some False), (''PUT'', Some False :: bool option)]
          = rev (remdups (rev [''GET'', ''PUT'', ''GET'']))"
    using C3_report_keys [OF run entry, THEN conjunct1] by (simp add: cli_args_def)
next
  let ?env = "scripted_env [Inr \<lparr>status_code = 200\<rparr>, Inr \<lparr>status_code = 403\<rparr>] None"
  let ?args = "cli_args ''https://example.com'' (Some [''/admin'']) [''GET'', ''PUT''] None"
  have run: "for_endpoints ?env ?args [''/admin''] [] (initial_state 0)
          = (Inr [(''/admin'', [(''GET'', Some True), (''PUT'', Some False)])],
             snd (for_endpoints ?env ?args [''/admin''] [] (initial_state 0)))"
    using run_example by (rule_tac prod_eqI) simp_all
  have entry: "(''/admin'', [(''GET'', Some True), (''PUT'', Some False)])
                 \<in> set [(''/admin'', [(''GET'', Some True), (''PUT'', Some False)])]"
    by simp
  have dist: "distinct (methods ?args)"
    by (simp add: cli_args_def)
  have "map fst [(''GET'', Some True), (''PUT'', Some False)] = methods ?args"
    using C3_report_keys [OF run entry] dist by blast
  then show "map fst [(''GET'', Some True), (''PUT'', Some False)] = [''GET'', ''PUT'']"
    by (simp add: cli_args_def)
qed

text \<open>
  C10. The prober returns an empty report exactly when its method list is empty. Such
  an endpoint is left out of the audit report and logged as a failure: the test
  \<^verbatim>\<open>if results:\<close> is the truth value of the dictionary, which is the same for the
  empty dictionary and for \<^verbatim>\<open>None\<close>.
\<close>

theorem C10_empty_report_omitted:
  assumes "urljoin env (url args) endpoint = Inr full_url"
  shows "(fst (test_http_methods env (url args) endpoint (methods args) (user_agent args)
                 (timeout args) (ignore_ssl args) st) = Inr (Some [])
            \<longleftrightarrow> methods args = [])
         \<and> (methods args = [] \<longrightarrow>
              for_endpoints env args (endpoint # rest) all_results st
                = for_endpoints env args rest all_results
                    (logging_error (''Failed to test HTTP methods for endpoint: '' @ endpoint)
                       (logging_info (''Auditing endpoint: '' @ endpoint) st)))
         \<and> truthy (Some ([] :: results)) = truthy (None :: results option)"
proof -
  let ?run = "test_http_methods env (url args) endpoint (methods args) (user_agent args)
                (timeout args) (ignore_ssl args) st"
  have "methods args = []" if "fst ?run = Inr (Some [])"
  proof -
    from that have "?run = (Inr (Some []), snd ?run)"
      by (rule_tac prod_eqI) simp_all
    from for_methods_keys [OF test_http_methods_Some [OF assms this]]
    show ?thesis by simp
  qed
  moreover have "fst ?run = Inr (Some [])" if "methods args = []"
    using that by (simp add: test_http_methods_joined [OF assms])
  ultimately have first: "fst ?run = Inr (Some []) \<longleftrightarrow> methods args = []"
    by blast
  have "methods args = [] \<longrightarrow>
          for_endpoints env args (endpoint # rest) all_results st
            = for_endpoints env args rest all_results
                (logging_error (''Failed to test HTTP methods for endpoint: '' @ endpoint)
                   (logging_info (''Auditing endpoint: '' @ endpoint) st))"
    by (simp add: test_http_methods_joined [OF assms])
  with first show ?thesis by simp
qed

theorem C10_empty_report_omitted_witness:
  "for_endpoints (scripted_env [] None)
     (cli_args ''https://example.com'' (Some [''/admin'']) [] None)
     [''/admin''] [] (initial_state 0)
   = (Inr [],
      (initial_state 0)
        \<lparr>log := [(INFO, ''Auditing endpoint: /admin''),
                 (ERROR, ''Failed to test HTTP methods for endpoint: /admin'')]\<rparr>)"
  using C10_empty_report_omitted
          [where env = "scripted_env [] None"
             and args = "cli_args ''https://example.com'' (Some [''/admin'']) [] None"
             and endpoint = "''/admin''" and full_url = "''https://example.com/admin''"
             and rest = "[]" and all_results = "[]" and st = "initial_state 0"]
  by (simp add: cli_args_def py_join_admin logging_info_def logging_error_def
        initial_state_def)

section \<open>Runs without a failing handler\<close>

lemma test_http_methods_cases_printable:
  assumes "printable_faults env"
  shows "(\<exists>e. urljoin env u endpoint = Inl e
            \<and> test_http_methods env u endpoint ms ua tmo ig st = (Inl e, st))
       \<or> (\<exists>full_url results st'. urljoin env u endpoint = Inr full_url
            \<and> test_http_methods env u endpoint ms ua tmo ig st = (Inr (Some results), st')
            \<and> for_methods env full_url ua tmo ig ms [] st = (Inr results, st'))"
proof (cases "urljoin env u endpoint")
  case (Inl e)
  then show ?thesis by (simp add: test_http_methods_def)
next
  case (Inr full_url)
  with test_http_methods_returns [OF Inr assms] show ?thesis by blast
qed

text \<open>
  When every exception of the transport has a message, an exception leaves the loop
  over the endpoints exactly when the URL join raises for one of them; the endpoints
  after it are not probed.
\<close>

lemma for_endpoints_raises:
  assumes "printable_faults env"
  shows "isl (fst (for_endpoints env args es all_results st))
           \<longleftrightarrow> (\<exists>endpoint \<in> set es. isl (urljoin env (url args) endpoint))"
proof (induction es arbitrary: all_results st)
  case Nil
  show ?case by simp
next
  case (Cons endpoint rest)
  let ?st0 = "logging_info (''Auditing endpoint: '' @ endpoint) st"
  from test_http_methods_cases_printable
         [OF assms, of "url args" endpoint "methods args" "user_agent args" "timeout args"
             "ignore_ssl args" ?st0]
  show ?case
  proof (elim disjE exE conjE)
    fix e
    assume "urljoin env (url args) endpoint = Inl e"
      and "test_http_methods env (url args) endpoint (methods args) (user_agent args)
              (timeout args) (ignore_ssl args) ?st0 = (Inl e, ?st0)"
    then show ?thesis by simp
  next
    fix full_url results st1
    assume "urljoin env (url args) endpoint = Inr full_url"
      and "test_http_methods env (url args) endpoint (methods args) (user_agent args)
              (timeout args) (ignore_ssl args) ?st0 = (Inr (Some results), st1)"
    then show ?thesis by (simp add: Cons.IH)
  qed
qed

text \<open>
  Runs in which the URL join succeeds for every endpoint and every exception of the
  transport has a message: the prober is invoked once per endpoint, in the order of
  the list (the requests sent are those of one probe after the other), and with a
  method list that is not empty every endpoint has its entry in the audit report, in
  the order in which the endpoint list first names it.
\<close>

lemma for_endpoints_sent:
  assumes "printable_faults env"
  shows "\<forall>endpoint \<in> set es. \<not> isl (urljoin env (url args) endpoint)
   \<Longrightarrow> for_endpoints env args es all_results st = (x, st')
   \<Longrightarrow> sent st' = sent st @ concat (map (\<lambda>endpoint.
          map (the_request (projr (urljoin env (url args) endpoint)) (user_agent args)
                 (timeout args) (ignore_ssl args)) (methods args)) es)"
proof (induction es arbitrary: all_results st)
  case Nil
  then show ?case by simp
next
  case (Cons endpoint rest)
  let ?st0 = "logging_info (''Auditing endpoint: '' @ endpoint) st"
  have st0: "sent ?st0 = sent st"
    by (simp add: logging_info_def)
  have joins: "\<forall>endpoint \<in> set rest. \<not> isl (urljoin env (url args) endpoint)"
    using Cons.prems(1) by simp
  from test_http_methods_cases_printable
         [OF assms, of "url args" endpoint "methods args" "user_agent args" "timeout args"
             "ignore_ssl args" ?st0]
  show ?case
  proof (elim disjE exE conjE)
    fix e
    assume "urljoin env (url args) endpoint = Inl e"
    with Cons.prems(1) show ?thesis by simp
  next
    fix full_url results st1
    assume j: "urljoin env (url args) endpoint = Inr full_url"
      and t: "test_http_methods env (url args) endpoint (methods args) (user_agent args)
              (timeout args) (ignore_ssl args) ?st0 = (Inr (Some results), st1)"
      and f: "for_methods env full_url (user_agent args) (timeout args) (ignore_ssl args)
              (methods args) [] ?st0 = (Inr results, st1)"
    have st1: "sent st1 = sent st @ map (the_request full_url (user_agent args)
                 (timeout args) (ignore_ssl args)) (methods args)"
      using for_methods_sent [OF f] st0 by simp
    show ?thesis
    proof (cases "results = []")
      case True
      with t Cons.prems(2) have
        "for_endpoints env args rest all_results
           (logging_error (''Failed to test HTTP methods for endpoint: '' @ endpoint) st1)
         = (x, st')"
        by simp
      from Cons.IH [OF joins this] st1 j show ?thesis by (simp add: logging_error_def)
    next
      case False
      with t Cons.prems(2) have
        "for_endpoints env args rest (AList.update endpoint results all_results) st1
         = (x, st')"
        by simp
      from Cons.IH [OF joins this] st1 j show ?thesis by simp
    qed
  qed
qed

lemma for_endpoints_append:
  "for_endpoints env args (pre @ post) all_results st =
     (case for_endpoints env args pre all_results st of
        (Inl e, st') \<Rightarrow> (Inl e, st')
      | (Inr all_results', st') \<Rightarrow> for_endpoints env args post all_results' st')"
proof (induction pre arbitrary: all_results st)
  case Nil
  show ?case by simp
next
  case (Cons endpoint rest)
  show ?case by (auto simp: Cons.IH split: prod.split sum.split)
qed

lemma for_endpoints_keys:
  assumes "printable_faults env"
  shows "methods args \<noteq> []
   \<Longrightarrow> \<forall>endpoint \<in> set es. \<not> isl (urljoin env (url args) endpoint)
   \<Longrightarrow> \<exists>report st'. for_endpoints env args es [] st = (Inr report, st')
         \<and> map fst report = rev (remdups (rev es))"
proof (induction es rule: rev_induct)
  case Nil
  show ?case by simp
next
  case (snoc endpoint es)
  from snoc obtain report st1 where
    1: "for_endpoints env args es [] st = (Inr report, st1)"
    and keys: "map fst report = rev (remdups (rev es))"
    by auto
  let ?st0 = "logging_info (''Auditing endpoint: '' @ endpoint) st1"
  from snoc.prems(2) obtain full_url where j: "urljoin env (url args) endpoint = Inr full_url"
    by (cases "urljoin env (url args) endpoint") auto
  from test_http_methods_returns [OF j assms] obtain results st2 where
    t: "test_http_methods env (url args) endpoint (methods args) (user_agent args)
          (timeout args) (ignore_ssl args) ?st0 = (Inr (Some results), st2)"
    and f: "for_methods env full_url (user_agent args) (timeout args) (ignore_ssl args)
          (methods args) [] ?st0 = (Inr results, st2)"
    by blast
  have "map fst results = rev (remdups (rev (methods args)))"
    using for_methods_keys [OF f] .
  with snoc.prems(1) have "results \<noteq> []"
    by (metis map_is_Nil_conv remdups_eq_nil_iff rev_is_Nil_conv)
  with 1 t have run: "for_endpoints env args (es @ [endpoint]) [] st
                  = (Inr (AList.update endpoint results report), st2)"
    by (simp add: for_endpoints_append)
  from keys have "set (map fst report) = set es" by simp
  with keys have "map fst (AList.update endpoint results report)
                    = rev (remdups (rev (es @ [endpoint])))"
    by (simp add: update_keys del: set_map)
  with run show ?case by simp
qed

section \<open>The exit status\<close>

text \<open>
  The exit status of every run in which every exception of the transport has a
  message: 1 on a usage error, and 1 as well when the URL join raises for an endpoint
  (the exception is caught nowhere); 0 otherwise, whatever the requests and the write
  of the output file do.
\<close>

lemma main_exit_status:
  assumes "printable_faults env"
  shows "exit_status (fst (main env args st)) =
     (if usage_error args then 1
      else if \<exists>endpoint \<in> set (the (endpoints args)). isl (urljoin env (url args) endpoint)
      then 1 else 0)"
proof (cases "usage_error args")
  case True
  then show ?thesis by (auto simp: usage_error_def main_def)
next
  case False
  then obtain es where es: "endpoints args = Some es"
    by (auto simp: usage_error_def)
  obtain r st1 where run: "for_endpoints env args es [] st = (r, st1)"
    by (cases "for_endpoints env args es [] st")
  have "isl r \<longleftrightarrow> (\<exists>endpoint \<in> set es. isl (urljoin env (url args) endpoint))"
    using for_endpoints_raises [OF assms, of args es "[]" st] run by simp
  with False es run show ?thesis
    by (cases r) (auto simp: usage_error_def main_def)
qed

lemma main_usage_error:
  "usage_error args \<Longrightarrow>
   fst (main env args st) = Inr 1 \<and> sent (snd (main env args st)) = sent st"
  by (auto simp: usage_error_def main_def print_def logging_warning_def)

text \<open>
  C4, on the run \<^verbatim>\<open>-u http://example.com -e //[ /admin -m GET\<close>. The URL join raises
  on the first endpoint. The probe has failed outright, but the endpoint is not
  skipped: the exception ends the run. The endpoint \<^verbatim>\<open>/admin\<close> is never probed (no
  request is sent, and one record only is logged), and no report is printed.
\<close>

theorem C4_join_failure_ends_run:
  "main (scripted_env [Inr \<lparr>status_code = 200\<rparr>] None)
     (cli_args ''http://example.com'' (Some [''//['', ''/admin'']) [''GET''] None)
     (initial_state 0)
   = (Inl (ValueError ''Invalid IPv6 URL''),
      (initial_state 0)\<lparr>log := [(INFO, ''Auditing endpoint: //['')]\<rparr>)"
  by (simp add: main_def cli_args_def test_http_methods_def py_join_bracket_endpoint
        logging_info_def initial_state_def)

text \<open>
  C5, on the run \<^verbatim>\<open>-u http://[ -e /x -m GET\<close>. The URL starts with \<^verbatim>\<open>http://\<close> and
  an endpoint is given, so there is no usage error; the URL join raises, nothing
  catches the exception, and the exit status is 1.
\<close>

theorem C5_exit_status_without_usage_error:
  "\<not> usage_error (cli_args ''http://['' (Some [''/x'']) [''GET''] None)
   \<and> exit_status (fst (main (scripted_env [Inr \<lparr>status_code = 200\<rparr>] None)
                         (cli_args ''http://['' (Some [''/x'']) [''GET''] None)
                         (initial_state 0))) = 1"
  by (simp add: usage_error_def main_def cli_args_def test_http_methods_def py_join_bracket
        logging_info_def initial_state_def)

section \<open>The output\<close>

lemma join_with_indent:
  "xs \<noteq> [] \<Longrightarrow>
   pre @ join_with (sep @ pre) (map f xs) = join_with sep (map (\<lambda>x. pre @ f x) xs)"
proof (induction xs)
  case Nil
  then show ?case by simp
next
  case (Cons x xs)
  show ?case
  proof (cases xs)
    case Nil
    then show ?thesis by simp
  next
    case (Cons y ys)
    with Cons.IH have "pre @ join_with (sep @ pre) (map f (y # ys))
                         = join_with sep (map (\<lambda>x. pre @ f x) (y # ys))"
      by simp
    with Cons show ?thesis by simp
  qed
qed

lemma json_literal_eq:
  "json_literal v = (case v of None \<Rightarrow> ''null'' | Some True \<Rightarrow> ''true'' | Some False \<Rightarrow> ''false'')"
  by (cases v) (auto split: bool.split)

lemma inner_dict_text:
  "replicate 4 CHR '' '' @ encoder (fst entry) @ '': ''
     @ iterencode_dict encoder 4 (\<lambda>v level'. json_literal v) (snd entry) (Suc 0)
   = endpoint_block encoder entry"
proof (cases "snd entry = []")
  case True
  then show ?thesis by (simp add: iterencode_dict_def endpoint_block_def)
next
  case False
  have line: "method_line encoder
                = (\<lambda>member. replicate 8 CHR '' '' @ encoder (fst member) @ '': ''
                              @ json_literal (snd member))"
    by (rule ext) (simp add: method_line_def json_literal_eq)
  have lines: "join_with [CHR '','', CHR 0x0A] (map (method_line encoder) (snd entry))
        = replicate 8 CHR '' ''
          @ join_with ([CHR '','', CHR 0x0A] @ replicate 8 CHR '' '')
              (map (\<lambda>member. encoder (fst member) @ '': '' @ json_literal (snd member))
                 (snd entry))"
    unfolding join_with_indent [OF False] line by simp
  from False show ?thesis
    by (simp add: iterencode_dict_def endpoint_block_def Let_def case_prod_unfold lines)
qed

text \<open>The text of the encoder is the layout the specification describes.\<close>

lemma json_dumps_layout:
  "json_dumps encoder 4 report = report_text encoder report"
proof (cases "report = []")
  case True
  then show ?thesis by (simp add: json_dumps_def iterencode_dict_def report_text_def)
next
  case False
  have block: "endpoint_block encoder
                 = (\<lambda>entry. replicate 4 CHR '' '' @ encoder (fst entry) @ '': ''
                      @ iterencode_dict encoder 4 (\<lambda>v level'. json_literal v)
                          (snd entry) (Suc 0))"
    by (rule ext) (rule inner_dict_text [symmetric])
  have blocks: "join_with [CHR '','', CHR 0x0A] (map (endpoint_block encoder) report)
        = replicate 4 CHR '' ''
          @ join_with ([CHR '','', CHR 0x0A] @ replicate 4 CHR '' '')
              (map (\<lambda>entry. encoder (fst entry) @ '': ''
                      @ iterencode_dict encoder 4 (\<lambda>v level'. json_literal v)
                          (snd entry) (Suc 0))
                 report)"
    unfolding join_with_indent [OF False] block by simp
  from False show ?thesis
    by (simp add: json_dumps_def iterencode_dict_def [where dct = report] report_text_def
          Let_def case_prod_unfold blocks)
qed

text \<open>The prober and the loop over the endpoints print nothing and write no file.\<close>

lemma try_method_quiet:
  "try_method env full_url ua tmo ig method results st = (x, st')
   \<Longrightarrow> stdout st' = stdout st \<and> written st' = written st"
  by (auto simp: try_method_eq Let_def logging_error_def split: sum.splits)

lemma for_methods_quiet:
  "for_methods env full_url ua tmo ig ms results st = (x, st')
   \<Longrightarrow> stdout st' = stdout st \<and> written st' = written st"
proof (induction ms arbitrary: results st)
  case Nil
  then show ?case by simp
next
  case (Cons m ms)
  obtain x1 st1 where 1: "try_method env full_url ua tmo ig m results st = (x1, st1)"
    by (cases "try_method env full_url ua tmo ig m results st")
  show ?case
  proof (cases x1)
    case (Inl e)
    with 1 Cons.prems have "st' = st1" by simp
    with try_method_quiet [OF 1] show ?thesis by simp
  next
    case (Inr r1)
    with 1 Cons.prems have "for_methods env full_url ua tmo ig ms r1 st1 = (x, st')"
      by simp
    from Cons.IH [OF this] try_method_quiet [OF 1] show ?thesis by simp
  qed
qed

lemma for_endpoints_quiet:
  "for_endpoints env args es all_results st = (x, st')
   \<Longrightarrow> stdout st' = stdout st \<and> written st' = written st"
proof (induction es arbitrary: all_results st)
  case Nil
  then show ?case by simp
next
  case (Cons endpoint rest)
  let ?st0 = "logging_info (''Auditing endpoint: '' @ endpoint) st"
  have st0: "stdout ?st0 = stdout st \<and> written ?st0 = written st"
    by (simp add: logging_info_def)
  from test_http_methods_cases
         [of env "url args" endpoint "methods args" "user_agent args" "timeout args"
             "ignore_ssl args" ?st0]
  show ?case
  proof (elim disjE exE conjE)
    fix e
    assume "test_http_methods env (url args) endpoint (methods args) (user_agent args)
              (timeout args) (ignore_ssl args) ?st0 = (Inl e, ?st0)"
    with Cons.prems st0 show ?thesis by auto
  next
    fix full_url results st1
    assume f: "for_methods env full_url (user_agent args) (timeout args) (ignore_ssl args)
              (methods args) [] ?st0 = (Inr results, st1)"
      and t: "test_http_methods env (url args) endpoint (methods args) (user_agent args)
              (timeout args) (ignore_ssl args) ?st0 = (Inr (Some results), st1)"
    have st1: "stdout st1 = stdout st \<and> written st1 = written st"
      using for_methods_quiet [OF f] st0 by simp
    show ?thesis
    proof (cases "results = []")
      case True
      with t Cons.prems have
        "for_endpoints env args rest all_results
           (logging_error (''Failed to test HTTP methods for endpoint: '' @ endpoint) st1)
         = (x, st')"
        by simp
      from Cons.IH [OF this] st1 show ?thesis by (simp add: logging_error_def)
    next
      case False
      with t Cons.prems have
        "for_endpoints env args rest (AList.update endpoint results all_results) st1
         = (x, st')"
        by simp
      from Cons.IH [OF this] st1 show ?thesis by simp
    qed
  next
    fix full_url e st1 msg
    assume f: "for_methods env full_url (user_agent args) (timeout args) (ignore_ssl args)
              (methods args) [] ?st0 = (Inl e, st1)"
      and t: "test_http_methods env (url args) endpoint (methods args) (user_agent args)
              (timeout args) (ignore_ssl args) ?st0
            = (Inr None, logging_error (''An unexpected error occurred: '' @ msg) st1)"
    have st1: "stdout st1 = stdout st \<and> written st1 = written st"
      using for_methods_quiet [OF f] st0 by simp
    from t Cons.prems have
      "for_endpoints env args rest all_results
         (logging_error (''Failed to test HTTP methods for endpoint: '' @ endpoint)
            (logging_error (''An unexpected error occurred: '' @ msg) st1))
       = (x, st')"
      by simp
    from Cons.IH [OF this] st1 show ?thesis by (simp add: logging_error_def)
  next
    fix full_url e st1 e'
    assume f: "for_methods env full_url (user_agent args) (timeout args) (ignore_ssl args)
              (methods args) [] ?st0 = (Inl e, st1)"
      and t: "test_http_methods env (url args) endpoint (methods args) (user_agent args)
              (timeout args) (ignore_ssl args) ?st0 = (Inl e', st1)"
    have st1: "stdout st1 = stdout st \<and> written st1 = written st"
      using for_methods_quiet [OF f] st0 by simp
    with t Cons.prems show ?thesis by auto
  qed
qed

text \<open>
  C6. The text that is emitted is the JSON serialisation of the audit report with four
  spaces per level, in which \<^verbatim>\<open>None\<close> appears as \<^verbatim>\<open>null\<close>, \<^verbatim>\<open>True\<close> as \<^verbatim>\<open>true\<close>
  and \<^verbatim>\<open>False\<close> as \<^verbatim>\<open>false\<close>. The same text goes to the output file when
  \<^verbatim>\<open>args.output\<close> is set (a failed write is logged and writes nothing), and to
  standard output otherwise; nothing else is printed or written.
\<close>

theorem C6_output_text:
  assumes "\<not> usage_error args"
    and "for_endpoints env args (the (endpoints args)) [] st = (Inr report, st1)"
  shows "json_dumps (encode_basestring env) 4 report
           = report_text (encode_basestring env) report
         \<and> (if truthy (output_path args)
            then stdout (snd (main env args st)) = stdout st
               \<and> written (snd (main env args st)) =
                   (case fst (open_write env (the (output_path args))
                                (report_text (encode_basestring env) report) (world st1)) of
                      None \<Rightarrow> written st @ [(the (output_path args),
                                             report_text (encode_basestring env) report)]
                    | Some e \<Rightarrow> written st)
            else stdout (snd (main env args st))
                   = stdout st @ [report_text (encode_basestring env) report]
               \<and> written (snd (main env args st)) = written st)"
proof -
  from assms(1) obtain es where es: "endpoints args = Some es"
    and scheme: "prefix ''http://'' (url args) \<or> prefix ''https://'' (url args)"
    by (auto simp: usage_error_def)
  from assms(2) es have run: "for_endpoints env args es [] st = (Inr report, st1)"
    by simp
  have quiet: "stdout st1 = stdout st" "written st1 = written st"
    using for_endpoints_quiet [OF run] by simp_all
  have tail: "snd (main env args st) =
          logging_info ''Audit completed.''
            (if truthy (output_path args)
             then save_results_to_file env report (the (output_path args)) st1
             else print (json_dumps (encode_basestring env) 4 report) st1)"
    using es scheme run by (auto simp: main_def)
  show ?thesis
    unfolding tail
    by (simp add: json_dumps_layout save_results_to_file_def print_def logging_info_def
          logging_error_def Let_def quiet split: option.split)
qed

text \<open>
  The example of the specification: \<^verbatim>\<open>https://example.com\<close>, the endpoint
  \<^verbatim>\<open>/admin\<close>, the methods GET and PUT, a transport that answers 200 and then 403.
\<close>

theorem C6_output_text_witness:
  "stdout (snd (main
      (scripted_env [Inr \<lparr>status_code = 200\<rparr>, Inr \<lparr>status_code = 403\<rparr>] None)
      (cli_args ''https://example.com'' (Some [''/admin'']) [''GET'', ''PUT''] None)
      (initial_state 0)))
   = [''{'' @ [CHR 0x0A]
      @ ''    '' @ [CHR 0x22] @ ''/admin'' @ [CHR 0x22] @ '': {'' @ [CHR 0x0A]
      @ ''        '' @ [CHR 0x22] @ ''GET'' @ [CHR 0x22] @ '': true,'' @ [CHR 0x0A]
      @ ''        '' @ [CHR 0x22] @ ''PUT'' @ [CHR 0x22] @ '': false'' @ [CHR 0x0A]
      @ ''    }'' @ [CHR 0x0A]
      @ ''}'']"
proof -
  let ?env = "scripted_env [Inr \<lparr>status_code = 200\<rparr>, Inr \<lparr>status_code = 403\<rparr>] None"
  let ?args = "cli_args ''https://example.com'' (Some [''/admin'']) [''GET'', ''PUT''] None"
  let ?report = "[(''/admin'', [(''GET'', Some True), (''PUT'', Some False)])]"
  have es: "the (endpoints ?args) = [''/admin'']"
    by (simp add: cli_args_def)
  have "fst (for_endpoints ?env ?args [''/admin''] [] (initial_state 0)) = Inr ?report"
    by (rule run_example)
  then have run: "for_endpoints ?env ?args (the (endpoints ?args)) [] (initial_state 0)
          = (Inr ?report, snd (for_endpoints ?env ?args [''/admin''] [] (initial_state 0)))"
    unfolding es by (rule_tac prod_eqI) simp_all
  have ok: "\<not> usage_error ?args"
    by (simp add: usage_error_def cli_args_def)
  have out: "\<not> truthy (output_path ?args)"
    by (simp add: cli_args_def)
  have layout: "report_text (encode_basestring ?env) ?report
      = ''{'' @ [CHR 0x0A]
        @ ''    '' @ [CHR 0x22] @ ''/admin'' @ [CHR 0x22] @ '': {'' @ [CHR 0x0A]
        @ ''        '' @ [CHR 0x22] @ ''GET'' @ [CHR 0x22] @ '': true,'' @ [CHR 0x0A]
        @ ''        '' @ [CHR 0x22] @ ''PUT'' @ [CHR 0x22] @ '': false'' @ [CHR 0x0A]
        @ ''    }'' @ [CHR 0x0A]
        @ ''}''"
    by (simp add: scripted_env_def report_text_def endpoint_block_def method_line_def
          eval_nat_numeral)
  have start: "stdout (initial_state 0 :: nat state) = []"
    by (simp add: initial_state_def)
  have "stdout (snd (main ?env ?args (initial_state 0)))
          = stdout (initial_state 0 :: nat state)
            @ [report_text (encode_basestring ?env) ?report]"
    using C6_output_text [OF ok run, THEN conjunct2] out by (simp only: if_False)
  then show ?thesis
    unfolding layout start by (simp only: append_Nil)
qed

end
